theory Spec2Isabelle
  imports Complex_Main "HOL-Library.Sublist"
begin

section \<open>Waterlogging route checker: the route risk assessment of \<^verbatim>\<open>src/App.jsx\<close>\<close>

text \<open>
  The component \<^verbatim>\<open>App\<close> geocodes two endpoints (or takes the coordinates pinned on the
  map), fetches a driving route, samples its vertices, asks for every sample whether mapped
  water is near and how much rain fell, and publishes a three-valued risk level.

  Conventions of the embedding:
  \<^item> a JavaScript number is a \<^typ>\<open>real\<close>, the value of the double: comparisons,
    \<^verbatim>\<open>Math.max\<close> and \<^verbatim>\<open>toFixed\<close> are exact on it; \<^verbatim>\<open>+\<close> rounds its result to a
    double, so it is the function \<open>double_add\<close> of the environment and not the addition of
    \<^typ>\<open>real\<close>; \<^verbatim>\<open>NaN\<close> and the infinities are outside the type;
  \<^item> an \<^verbatim>\<open>async\<close> function takes the application state and returns it with its result;
    a rejected promise or a \<^verbatim>\<open>throw\<close> is the \<open>Inl\<close> of a sum;
  \<^item> the four web services are functions of an environment record. Each takes, before the
    arguments of the request, the number of requests made so far, so a service may answer
    the same request differently at different times;
  \<^item> the Leaflet map is not modelled beyond the list \<^verbatim>\<open>samplesMarkersRef.current\<close> the
    handler itself writes; its calls are taken to succeed, and the two \<^verbatim>\<open>useEffect\<close>
    hooks (map creation and the drawing of the route) are left out.
\<close>

subsection \<open>Values\<close>

text \<open>\<^verbatim>\<open>{ lat, lon }\<close>, the object of a pinned or geocoded location and of a sample.\<close>

record point =
  lat :: real
  lon :: real

text \<open>A GeoJSON position is the array \<^verbatim>\<open>[lon, lat]\<close>: index 0 is the first component.\<close>

type_synonym position = "real \<times> real"

record geometry =
  coordinates :: "position list"

text \<open>
  What the handler can catch. \<^verbatim>\<open>fetch\<close> rejects with a \<^verbatim>\<open>TypeError\<close>,
  \<^verbatim>\<open>res.json()\<close> with a \<^verbatim>\<open>SyntaxError\<close>; both messages are the engine's and come with
  the response.
\<close>

datatype exn = Error string | TypeError string | SyntaxError string

fun message :: "exn \<Rightarrow> string" where
  "message (Error m) = m"
| "message (TypeError m) = m"
| "message (SyntaxError m) = m"

text \<open>
  The message of the \<^verbatim>\<open>TypeError\<close> raised by reading a property of \<^verbatim>\<open>undefined\<close>.
  The wording is the engine's; nothing below depends on it.
\<close>

definition undefined_property :: string where
  "undefined_property = ''Cannot read properties of undefined''"

text \<open>
  The value a water check returns: \<^verbatim>\<open>data.elements && data.elements.length > 0\<close> is
  \<^verbatim>\<open>undefined\<close> when the body has no \<^verbatim>\<open>elements\<close>.
\<close>

datatype jsval = Undefined | Bool bool

fun truthy :: "jsval \<Rightarrow> bool" where
  "truthy Undefined = False"
| "truthy (Bool b) = b"

text \<open>An entry of the hourly precipitation series: a number, or \<^verbatim>\<open>null\<close> for a missing hour.\<close>

datatype jnum = Null | Num real

text \<open>
  \<^verbatim>\<open>a + b\<close> for a number \<^verbatim>\<open>a\<close>, given the addition of two doubles: \<^verbatim>\<open>null\<close>
  converts to 0 before it is added.
\<close>

fun js_plus :: "(real \<Rightarrow> real \<Rightarrow> real) \<Rightarrow> real \<Rightarrow> jnum \<Rightarrow> real" where
  "js_plus add a Null = add a 0"
| "js_plus add a (Num b) = add a b"

subsection \<open>The web services\<close>

text \<open>
  The outcome of \<^verbatim>\<open>await fetch(...)\<close> followed by \<^verbatim>\<open>await res.json()\<close>: the fetch
  rejects, or it resolves with a response whose \<^verbatim>\<open>ok\<close> flag is given and whose body
  either fails to parse (\<open>Inl\<close>, with the message) or parses to a value.
\<close>

datatype 'a http = Rejects string | Response bool "string + 'a"

text \<open>OSRM: \<^verbatim>\<open>{ code, routes: [{ geometry }, ...] }\<close>.\<close>

record route =
  geometry :: geometry

record osrm_body =
  code :: string
  routes :: "route list"

text \<open>Overpass: \<^verbatim>\<open>{ elements: [...] }\<close>; an element is represented by its OSM id.\<close>

record overpass_body =
  elements :: "nat list option"

text \<open>Open-Meteo: \<^verbatim>\<open>{ hourly: { precipitation: [...] } }\<close>.\<close>

record hourly_series =
  precipitation :: "jnum list option"

record meteo_body =
  hourly :: "hourly_series option"

text \<open>
  Nominatim answers with a list of candidates, here already through \<^verbatim>\<open>parseFloat\<close>;
  \<open>None\<close> is a body that is \<^verbatim>\<open>null\<close>. \<open>number_toString\<close> is the engine's conversion
  of a number to a string, which \<^verbatim>\<open>toFixed\<close> falls back to from \<open>10\<^sup>2\<^sup>1\<close> on, and
  \<open>double_add\<close> its \<^verbatim>\<open>+\<close> on two numbers: their sum rounded to a double.
\<close>

record env =
  nominatim :: "nat \<Rightarrow> string \<Rightarrow> point list option http"
  osrm :: "nat \<Rightarrow> point \<Rightarrow> point \<Rightarrow> osrm_body http"
  overpass :: "nat \<Rightarrow> real \<Rightarrow> real \<Rightarrow> real \<Rightarrow> overpass_body http"
  open_meteo :: "nat \<Rightarrow> real \<Rightarrow> real \<Rightarrow> meteo_body http"
  number_toString :: "real \<Rightarrow> string"
  double_add :: "real \<Rightarrow> real \<Rightarrow> real"

subsection \<open>The state of the component\<close>

text \<open>
  What the handler waits for: the four requests (the water request with latitude,
  longitude and radius) and the dynamic import of Leaflet.
\<close>

datatype request =
  Geocode string
| Route point point
| Water real real real
| Rain real real
| ImportLeaflet

text \<open>\<^verbatim>\<open>L.circleMarker([lat, lon], { radius: 5 })\<close>; \<open>None\<close> is Leaflet's default colour.\<close>

record marker =
  latlng :: point
  radius :: real
  color :: "string option"

text \<open>
  The \<^verbatim>\<open>useState\<close> cells the handler reads or writes and \<^verbatim>\<open>samplesMarkersRef.current\<close>.
  \<open>awaited\<close> is not in the source: it records every suspension of the handler, with the
  value of \<open>checking\<close> that the button sees while the handler is suspended there.
\<close>

record app =
  originAddr :: string
  destAddr :: string
  origin :: "point option"
  dest :: "point option"
  status :: string
  routeGeo :: "geometry option"
  "checking" :: bool
  samplesMarkers :: "marker list"
  awaited :: "(request \<times> bool) list"

definition suspend :: "request \<Rightarrow> app \<Rightarrow> app" where
  "suspend r s = s\<lparr>awaited := awaited s @ [(r, checking s)]\<rparr>"

subsection \<open>\<^verbatim>\<open>geocode\<close> and \<^verbatim>\<open>getRoute\<close>\<close>

definition geocode :: "env \<Rightarrow> string \<Rightarrow> app \<Rightarrow> (exn + point option) \<times> app" where
  "geocode e address s =
     ((case nominatim e (length (awaited s)) address of
         Rejects m \<Rightarrow> Inl (TypeError m)
       | Response ok body \<Rightarrow>
           (case body of
              Inl m \<Rightarrow> Inl (SyntaxError m)
            | Inr data \<Rightarrow>
                (case data of
                   None \<Rightarrow> Inr None
                 | Some [] \<Rightarrow> Inr None
                 | Some (c # cs) \<Rightarrow> Inr (Some \<lparr>lat = lat c, lon = lon c\<rparr>)))),
      suspend (Geocode address) s)"

definition getRoute :: "env \<Rightarrow> point \<Rightarrow> point \<Rightarrow> app \<Rightarrow> (exn + geometry) \<times> app" where
  "getRoute e from to s =
     ((case osrm e (length (awaited s)) from to of
         Rejects m \<Rightarrow> Inl (TypeError m)
       | Response ok body \<Rightarrow>
           (case body of
              Inl m \<Rightarrow> Inl (SyntaxError m)
            | Inr data \<Rightarrow>
                if code data \<noteq> ''Ok'' then Inl (Error ''No route found'')
                else (case routes data of
                        [] \<Rightarrow> Inl (TypeError undefined_property)
                      | r # rs \<Rightarrow> Inr (geometry r)))),
      suspend (Route from to) s)"

subsection \<open>\<^verbatim>\<open>sampleLineString\<close>\<close>

definition point_of :: "position \<Rightarrow> point" where
  "point_of c = \<lparr>lat = snd c, lon = fst c\<rparr>"

text \<open>The loop \<^verbatim>\<open>for (let i = 0; i < coords.length; i += 10) samples.push(...)\<close>.\<close>

function sample_loop :: "position list \<Rightarrow> nat \<Rightarrow> point list \<Rightarrow> point list" where
  "sample_loop coords i samples =
     (if i < length coords
      then sample_loop coords (i + 10) (samples @ [point_of (coords ! i)])
      else samples)"
  by pat_completeness auto
termination
  by (relation "measure (\<lambda>(coords, i, samples). length coords - i)") auto

declare sample_loop.simps [simp del]

text \<open>\<open>spacingMeters\<close> (300 by default) is a parameter the body never reads.\<close>

definition sampleLineString :: "geometry \<Rightarrow> real \<Rightarrow> point list" where
  "sampleLineString geojson spacingMeters = sample_loop (coordinates geojson) 0 []"

subsection \<open>\<^verbatim>\<open>checkWaterAroundPoint\<close> and \<^verbatim>\<open>fetchPrecipitationLastHours\<close>\<close>

definition checkWaterAroundPoint ::
  "env \<Rightarrow> real \<Rightarrow> real \<Rightarrow> real \<Rightarrow> app \<Rightarrow> (exn + jsval) \<times> app" where
  "checkWaterAroundPoint e la lo radiusMeters s =
     ((case overpass e (length (awaited s)) la lo radiusMeters of
         Rejects m \<Rightarrow> Inl (TypeError m)
       | Response ok body \<Rightarrow>
           if \<not> ok then Inr (Bool False)
           else (case body of
                   Inl m \<Rightarrow> Inl (SyntaxError m)
                 | Inr data \<Rightarrow>
                     (case elements data of
                        None \<Rightarrow> Inr Undefined
                      | Some es \<Rightarrow> Inr (Bool (length es > 0))))),
      suspend (Water la lo radiusMeters) s)"

text \<open>\<^verbatim>\<open>xs.slice(-k)\<close>: the last \<open>k\<close> elements, or all of them when there are fewer.\<close>

definition slice_last :: "nat \<Rightarrow> 'a list \<Rightarrow> 'a list" where
  "slice_last k xs = drop (length xs - k) xs"

text \<open>The body of the \<^verbatim>\<open>try\<close> block of \<^verbatim>\<open>fetchPrecipitationLastHours\<close>.\<close>

definition fetchPrecipitation_try :: "env \<Rightarrow> real \<Rightarrow> real \<Rightarrow> app \<Rightarrow> exn + real" where
  "fetchPrecipitation_try e la lo s =
     (case open_meteo e (length (awaited s)) la lo of
        Rejects m \<Rightarrow> Inl (TypeError m)
      | Response ok body \<Rightarrow>
          (case body of
             Inl m \<Rightarrow> Inl (SyntaxError m)
           | Inr data \<Rightarrow>
               (case hourly data of
                  None \<Rightarrow> Inr 0
                | Some h \<Rightarrow>
                    (case precipitation h of
                       None \<Rightarrow> Inl (TypeError undefined_property)
                     | Some series \<Rightarrow>
                         (let prec = slice_last 3 series
                          in Inr (foldl (js_plus (double_add e)) 0 prec))))))"

definition fetchPrecipitationLastHours :: "env \<Rightarrow> real \<Rightarrow> real \<Rightarrow> app \<Rightarrow> real \<times> app" where
  "fetchPrecipitationLastHours e la lo s =
     ((case fetchPrecipitation_try e la lo s of
         Inl x \<Rightarrow> 0
       | Inr v \<Rightarrow> v),
      suspend (Rain la lo) s)"

subsection \<open>\<^verbatim>\<open>riskLevel\<close> and the status line\<close>

definition riskLevel :: "bool \<Rightarrow> real \<Rightarrow> string" where
  "riskLevel water rain =
     (if water \<and> rain > 10 then ''High''
      else if water \<or> rain > 5 then ''Medium''
      else ''Low'')"

definition digit :: "nat \<Rightarrow> char" where
  "digit d = ''0123456789'' ! d"

fun decimal :: "nat \<Rightarrow> string" where
  "decimal n = (if n < 10 then [digit n] else decimal (n div 10) @ [digit (n mod 10)])"

declare decimal.simps [simp del]

text \<open>
  \<^verbatim>\<open>x.toFixed(f)\<close> as ECMAScript defines it on the value of \<open>x\<close>: the sign, then the
  integer \<open>n\<close> with \<open>n / 10\<^sup>f\<close> nearest to \<open>x\<close> (the larger one in a tie), padded with
  zeros to \<open>f + 1\<close> digits, with a point before the last \<open>f\<close> digits.
\<close>

definition toFixed :: "(real \<Rightarrow> string) \<Rightarrow> real \<Rightarrow> nat \<Rightarrow> string" where
  "toFixed toString x f =
     (let s = (if x < 0 then ''-'' else '''');
          x = (if x < 0 then - x else x)
      in if x \<ge> 10 ^ 21 then s @ toString x
         else
           (let n = nat \<lfloor>x * 10 ^ f + 1 / 2\<rfloor>;
                m = decimal n;
                m = (if f \<noteq> 0
                     then
                       (let k = length m;
                            m = (if k \<le> f then replicate (f + 1 - k) (CHR ''0'') @ m else m);
                            k = (if k \<le> f then f + 1 else k)
                        in take (k - f) m @ ''.'' @ drop (k - f) m)
                     else m)
            in s @ m))"

definition final_status :: "env \<Rightarrow> bool \<Rightarrow> real \<Rightarrow> string" where
  "final_status e waterDetected maxRain =
     ''Risk Level: '' @ riskLevel waterDetected maxRain @
     ''. Mapped water: '' @ (if waterDetected then ''Yes'' else ''No'') @
     '', Rain (last 3h): '' @ toFixed (number_toString e) maxRain 1 @ '' mm''"

subsection \<open>\<^verbatim>\<open>handleCheckRoute\<close>\<close>

text \<open>\<^verbatim>\<open>pinned || (await geocode(addr))\<close>: an object is truthy, \<^verbatim>\<open>null\<close> is not.\<close>

definition resolve :: "env \<Rightarrow> point option \<Rightarrow> string \<Rightarrow> app \<Rightarrow> (exn + point option) \<times> app" where
  "resolve e pinned addr s =
     (case pinned of
        Some p \<Rightarrow> (Inr (Some p), s)
      | None \<Rightarrow> geocode e addr s)"

text \<open>\<^verbatim>\<open>marker.setStyle({ color })\<close> on the marker pushed at index \<open>i\<close>.\<close>

definition setStyle :: "nat \<Rightarrow> string \<Rightarrow> app \<Rightarrow> app" where
  "setStyle i c s =
     s\<lparr>samplesMarkers := (samplesMarkers s)[i := (samplesMarkers s ! i)\<lparr>color := Some c\<rparr>]\<rparr>"

text \<open>
  The loop \<^verbatim>\<open>for (const p of samples)\<close>; the pair is \<open>(waterDetected, maxRain)\<close>.
  An exception of the water check leaves the loop.
\<close>

fun check_samples ::
  "env \<Rightarrow> point list \<Rightarrow> bool \<times> real \<Rightarrow> app \<Rightarrow> (exn + bool \<times> real) \<times> app" where
  "check_samples e [] (waterDetected, maxRain) s = (Inr (waterDetected, maxRain), s)"
| "check_samples e (p # ps) (waterDetected, maxRain) s =
     (let i = length (samplesMarkers s);
          s1 = s\<lparr>samplesMarkers :=
                   samplesMarkers s @ [\<lparr>latlng = \<lparr>lat = lat p, lon = lon p\<rparr>, radius = 5, color = None\<rparr>]\<rparr>
      in case checkWaterAroundPoint e (lat p) (lon p) 60 s1 of
           (Inl x, s2) \<Rightarrow> (Inl x, s2)
         | (Inr hasWater, s2) \<Rightarrow>
             (let s3 = (if truthy hasWater then setStyle i ''#1e88e5'' s2 else s2);
                  waterDetected = (if truthy hasWater then True else waterDetected)
              in case fetchPrecipitationLastHours e (lat p) (lon p) s3 of
                   (rain, s4) \<Rightarrow>
                     (let maxRain = max maxRain rain;
                          s5 = (if rain > 10 then setStyle i ''#d32f2f'' s4
                                else if rain > 5 then setStyle i ''#f57c00'' s4
                                else s4)
                      in check_samples e ps (waterDetected, maxRain) s5)))"

text \<open>
  The \<^verbatim>\<open>try\<close> block from \<^verbatim>\<open>setStatus("Getting route...")\<close> to its end, which is
  reached with both endpoints resolved.
\<close>

definition handleCheckRoute_assess :: "env \<Rightarrow> point \<Rightarrow> point \<Rightarrow> app \<Rightarrow> (exn + unit) \<times> app" where
  "handleCheckRoute_assess e from to s4 =
     (let s5 = s4\<lparr>status := ''Getting route...''\<rparr>
      in case getRoute e from to s5 of
           (Inl x, s6) \<Rightarrow> (Inl x, s6)
         | (Inr geom, s6) \<Rightarrow>
             (let s7 = s6\<lparr>routeGeo := Some geom\<rparr>;
                  s8 = s7\<lparr>status := ''Checking water and rainfall...''\<rparr>;
                  samples = sampleLineString geom 300;
                  s9 = suspend ImportLeaflet s8;
                  s10 = s9\<lparr>samplesMarkers := []\<rparr>
              in case check_samples e samples (False, 0) s10 of
                   (Inl x, s11) \<Rightarrow> (Inl x, s11)
                 | (Inr (waterDetected, maxRain), s11) \<Rightarrow>
                     (Inr (), s11\<lparr>status := final_status e waterDetected maxRain\<rparr>)))"

text \<open>
  The body of the \<^verbatim>\<open>try\<close> block. The handler reads \<open>origin\<close>, \<open>dest\<close> and the two
  addresses as they were when it started.
\<close>

definition handleCheckRoute_try :: "env \<Rightarrow> app \<Rightarrow> (exn + unit) \<times> app" where
  "handleCheckRoute_try e s0 =
     (let s1 = s0\<lparr>status := ''''\<rparr>;
          s2 = s1\<lparr>checking := True\<rparr>
      in case resolve e (origin s0) (originAddr s0) s2 of
           (Inl x, s3) \<Rightarrow> (Inl x, s3)
         | (Inr from, s3) \<Rightarrow>
             (case resolve e (dest s0) (destAddr s0) s3 of
                (Inl x, s4) \<Rightarrow> (Inl x, s4)
              | (Inr to, s4) \<Rightarrow>
                  (case (from, to) of
                     (Some f, Some t) \<Rightarrow> handleCheckRoute_assess e f t s4
                   | _ \<Rightarrow> (Inl (Error ''Invalid locations''), s4))))"

text \<open>\<^verbatim>\<open>try { ... } catch (e) { setStatus("Error: " + e.message) } finally { setChecking(false) }\<close>\<close>

definition handleCheckRoute :: "env \<Rightarrow> app \<Rightarrow> app" where
  "handleCheckRoute e s =
     (case handleCheckRoute_try e s of
        (Inl x, s') \<Rightarrow> s'\<lparr>status := ''Error: '' @ message x\<rparr>\<lparr>checking := False\<rparr>
      | (Inr u, s') \<Rightarrow> s'\<lparr>checking := False\<rparr>)"

text \<open>
  \<^verbatim>\<open><button onClick={handleCheckRoute} disabled={checking}>\<close>: a disabled button
  delivers no click.
\<close>

definition button_disabled :: "app \<Rightarrow> bool" where
  "button_disabled s = checking s"

definition click :: "env \<Rightarrow> app \<Rightarrow> app" where
  "click e s = (if button_disabled s then s else handleCheckRoute e s)"

text \<open>What a run adds to the record of suspensions.\<close>

definition run_log :: "env \<Rightarrow> app \<Rightarrow> (request \<times> bool) list" where
  "run_log e s = drop (length (awaited s)) (awaited (handleCheckRoute e s))"

subsection \<open>Notions for the statements about the record of suspensions\<close>

text \<open>
  \<open>grows P s s'\<close>: from \<open>s\<close> to \<open>s'\<close> the flag \<open>checking\<close> is the same and the record
  got new entries at its end, each satisfying \<open>P\<close>.
\<close>

definition grows :: "(request \<times> bool \<Rightarrow> bool) \<Rightarrow> app \<Rightarrow> app \<Rightarrow> bool" where
  "grows P s s' =
     (checking s' = checking s \<and> (\<exists>new. awaited s' = awaited s @ new \<and> (\<forall>x\<in>set new. P x)))"

text \<open>A request of the loop over the samples.\<close>

definition sample_request :: "request \<Rightarrow> bool" where
  "sample_request r = (case r of Water la lo ra \<Rightarrow> True | Rain la lo \<Rightarrow> True | _ \<Rightarrow> False)"

subsection \<open>Sample runs\<close>

text \<open>
  Services that answer: two known addresses, a route of five vertices, one water element
  near every point, and the hourly series 1, 2, 4, 6, whose sums are small integers, which
  doubles add without rounding.
\<close>

definition demo_env :: env where
  "demo_env =
     \<lparr>nominatim = (\<lambda>n a.
         if a = ''A'' then Response True (Inr (Some [\<lparr>lat = 1, lon = 2\<rparr>]))
         else if a = ''B'' then Response True (Inr (Some [\<lparr>lat = 3, lon = 4\<rparr>, \<lparr>lat = 5, lon = 6\<rparr>]))
         else Response True (Inr (Some []))),
      osrm = (\<lambda>n f t. Response True (Inr \<lparr>code = ''Ok'',
         routes = [\<lparr>geometry = \<lparr>coordinates = [(0, 10), (1, 11), (2, 12), (3, 13), (4, 14)]\<rparr>\<rparr>]\<rparr>)),
      overpass = (\<lambda>n la lo r. Response True (Inr \<lparr>elements = Some [7]\<rparr>)),
      open_meteo = (\<lambda>n la lo. Response True
         (Inr \<lparr>hourly = Some \<lparr>precipitation = Some [Num 1, Num 2, Num 4, Num 6]\<rparr>\<rparr>)),
      number_toString = (\<lambda>x. ''1e+21''),
      double_add = (\<lambda>a b. a + b)\<rparr>"

text \<open>The same with Overpass answering 504 and Open-Meteo unreachable.\<close>

definition demo_env_down :: env where
  "demo_env_down =
     demo_env\<lparr>overpass := (\<lambda>n la lo r. Response False (Inl ''Unexpected token <'')),
               open_meteo := (\<lambda>n la lo. Rejects ''Failed to fetch'')\<rparr>"

definition demo_app :: app where
  "demo_app =
     \<lparr>originAddr = ''A'', destAddr = ''B'', origin = None, dest = None, status = [],
      routeGeo = None, checking = False, samplesMarkers = [], awaited = []\<rparr>"

section \<open>Properties\<close>

subsection \<open>The sampler\<close>

lemma sample_loop_stop: "\<not> i < length coords \<Longrightarrow> sample_loop coords i samples = samples"
  by (subst sample_loop.simps) simp

lemma sample_loop_step:
  "i < length coords \<Longrightarrow>
   sample_loop coords i samples = sample_loop coords (i + 10) (samples @ [point_of (coords ! i)])"
  by (subst sample_loop.simps) simp

lemma stride_count:
  fixes i n :: nat
  assumes "i < n"
  shows "(n - i + 9) div 10 = Suc ((n - (i + 10) + 9) div 10)"
proof (cases "i + 10 \<le> n")
  case True
  then have "n - i + 9 = (n - (i + 10) + 9) + 10"
    by arith
  then have "(n - i + 9) div 10 = ((n - (i + 10) + 9) + 10) div 10"
    by (rule arg_cong)
  also have "\<dots> = Suc ((n - (i + 10) + 9) div 10)"
    by simp
  finally show ?thesis .
next
  case False
  with assms have "n - (i + 10) = 0" and "n - i + 9 < 20" and "10 \<le> n - i + 9"
    by arith+
  then show ?thesis
    by (simp add: div_nat_eqI)
qed

lemma upt_shift: "[0..<Suc m] = 0 # map Suc [0..<m]"
  by (simp only: map_Suc_upt upt_conv_Cons [OF zero_less_Suc])

lemma sample_loop_indices:
  "sample_loop coords i samples =
   samples @ map (\<lambda>k. point_of (coords ! (i + 10 * k))) [0..<(length coords - i + 9) div 10]"
proof (induction coords i samples rule: sample_loop.induct)
  case (1 coords i samples)
  show ?case
  proof (cases "i < length coords")
    case True
    let ?m = "(length coords - (i + 10) + 9) div 10"
    have count: "(length coords - i + 9) div 10 = Suc ?m"
      using True by (rule stride_count)
    have "sample_loop coords i samples =
          (samples @ [point_of (coords ! i)]) @
          map (\<lambda>k. point_of (coords ! (i + 10 + 10 * k))) [0..<?m]"
      using "1.IH" [OF True] True by (simp add: sample_loop_step)
    also have "\<dots> = samples @ map (\<lambda>k. point_of (coords ! (i + 10 * k))) [0..<Suc ?m]"
      by (simp only: upt_shift) (simp add: comp_def add.assoc)
    finally show ?thesis
      by (simp only: count)
  next
    case False
    then show ?thesis
      by (simp add: sample_loop_stop)
  qed
qed

lemma sample_loop_subseq:
  "\<exists>ys. sample_loop coords i samples = samples @ ys \<and> subseq ys (drop i (map point_of coords))"
proof (induction coords i samples rule: sample_loop.induct)
  case (1 coords i samples)
  show ?case
  proof (cases "i < length coords")
    case True
    let ?xs = "map point_of coords"
    from "1.IH" [OF True] obtain ys where
      ys: "sample_loop coords (i + 10) (samples @ [point_of (coords ! i)]) =
           (samples @ [point_of (coords ! i)]) @ ys"
      and sub: "subseq ys (drop (i + 10) ?xs)"
      by blast
    have "drop (i + 10) ?xs = drop 9 (drop (Suc i) ?xs)"
      by (simp add: add.commute)
    then have "suffix (drop (i + 10) ?xs) (drop (Suc i) ?xs)"
      by (simp only: suffix_drop)
    then have "subseq (drop (i + 10) ?xs) (drop (Suc i) ?xs)"
      by (rule suffix_imp_subseq)
    with sub have tl: "subseq ys (drop (Suc i) ?xs)"
      by (rule subseq_order.trans)
    have "drop i ?xs = point_of (coords ! i) # drop (Suc i) ?xs"
      using True by (simp add: Cons_nth_drop_Suc [symmetric])
    with tl have "subseq (point_of (coords ! i) # ys) (drop i ?xs)"
      by simp
    moreover have "sample_loop coords i samples = samples @ point_of (coords ! i) # ys"
      using ys True by (simp add: sample_loop_step)
    ultimately show ?thesis
      by blast
  next
    case False
    then show ?thesis
      by (simp add: sample_loop_stop)
  qed
qed

lemma count_pos: "0 < n \<Longrightarrow> 0 < (n + 9) div 10" for n :: nat
  by arith

lemma count_one: "0 < n \<Longrightarrow> n < 10 \<Longrightarrow> (n + 9) div 10 = 1" for n :: nat
  by arith

lemma count_le: "(n + 9) div 10 \<le> n" for n :: nat
  by arith

lemma point_of_eq: "point_of = (\<lambda>c. \<lparr>lat = snd c, lon = fst c\<rparr>)"
  by (intro ext) (simp add: point_of_def)

lemma stride_index: "k < (n + 9) div 10 \<Longrightarrow> 10 * k < n" for k n :: nat
  by arith

text \<open>
  C2. The sampler returns the vertices at the indices 0, 10, 20, ... of the path, in the
  order of the path and whatever the spacing argument: sample \<open>k\<close> has as latitude the second
  and as longitude the first component of vertex \<open>10 k\<close>. There are \<open>\<lceil>n / 10\<rceil>\<close> samples for
  \<open>n\<close> vertices, so never more than \<open>n\<close>; they form a subsequence of the path; a path with a
  vertex gives a result that starts with the first vertex; and a path of fewer than 10
  vertices gives the first vertex alone. (The empty path gives the empty list.)
\<close>

theorem sampleLineString_every_tenth:
  "sampleLineString g spacing =
     map (\<lambda>k. \<lparr>lat = snd (coordinates g ! (10 * k)), lon = fst (coordinates g ! (10 * k))\<rparr>)
       [0..<(length (coordinates g) + 9) div 10]
   \<and> (\<forall>k<length (sampleLineString g spacing).
        10 * k < length (coordinates g) \<and>
        lat (sampleLineString g spacing ! k) = snd (coordinates g ! (10 * k)) \<and>
        lon (sampleLineString g spacing ! k) = fst (coordinates g ! (10 * k)))
   \<and> length (sampleLineString g spacing) \<le> length (coordinates g)
   \<and> subseq (sampleLineString g spacing)
        (map (\<lambda>c. \<lparr>lat = snd c, lon = fst c\<rparr>) (coordinates g))
   \<and> (coordinates g \<noteq> [] \<longrightarrow>
        sampleLineString g spacing \<noteq> [] \<and>
        hd (sampleLineString g spacing) =
          \<lparr>lat = snd (hd (coordinates g)), lon = fst (hd (coordinates g))\<rparr>)
   \<and> (coordinates g \<noteq> [] \<and> length (coordinates g) < 10 \<longrightarrow>
        sampleLineString g spacing =
          [\<lparr>lat = snd (hd (coordinates g)), lon = fst (hd (coordinates g))\<rparr>])"
proof -
  define cs where "cs = coordinates g"
  define m where "m = (length cs + 9) div 10"
  define f where "f = (\<lambda>k. point_of (cs ! (10 * k)))"
  have idx: "sampleLineString g spacing = map f [0..<m]"
    unfolding sampleLineString_def sample_loop_indices cs_def m_def f_def by simp
  have nth: "10 * k < length cs \<and>
      lat (sampleLineString g spacing ! k) = snd (cs ! (10 * k)) \<and>
      lon (sampleLineString g spacing ! k) = fst (cs ! (10 * k))"
    if "k < length (sampleLineString g spacing)" for k
  proof -
    from that have k: "k < m"
      by (simp add: idx)
    then have "10 * k < length cs"
      unfolding m_def by (rule stride_index)
    moreover from k have "sampleLineString g spacing ! k = point_of (cs ! (10 * k))"
      by (simp add: idx f_def)
    ultimately show ?thesis
      by (simp add: point_of_def)
  qed
  have len: "length (sampleLineString g spacing) \<le> length cs"
    unfolding idx m_def by (simp add: count_le)
  have sub: "subseq (sampleLineString g spacing) (map point_of cs)"
    using sample_loop_subseq [of cs 0 "[]"] unfolding sampleLineString_def cs_def by auto
  have first: "sampleLineString g spacing \<noteq> [] \<and> hd (sampleLineString g spacing) = point_of (hd cs)"
    if "cs \<noteq> []"
  proof -
    from that have "0 < m"
      unfolding m_def by (intro count_pos) simp
    then have "map f [0..<m] \<noteq> []" and "hd (map f [0..<m]) = f 0"
      by (simp_all add: hd_map)
    moreover have "f 0 = point_of (hd cs)"
      using that unfolding f_def by (simp add: hd_conv_nth)
    ultimately show ?thesis
      unfolding idx by simp
  qed
  have short: "sampleLineString g spacing = [point_of (hd cs)]"
    if "cs \<noteq> []" and "length cs < 10"
  proof -
    from that have "m = 1"
      unfolding m_def by (intro count_one) simp_all
    then have "map f [0..<m] = [f 0]"
      by simp
    moreover have "f 0 = point_of (hd cs)"
      using that unfolding f_def by (simp add: hd_conv_nth)
    ultimately show ?thesis
      unfolding idx by simp
  qed
  from idx nth len sub first short show ?thesis
    unfolding cs_def m_def f_def point_of_eq by blast
qed

theorem sampleLineString_every_tenth_witness:
  "sampleLineString \<lparr>coordinates = [(0, 10), (1, 11), (2, 12), (3, 13), (4, 14)]\<rparr> 300 =
     [\<lparr>lat = 10, lon = 0\<rparr>]"
  using sampleLineString_every_tenth
    [of "\<lparr>coordinates = [(0, 10), (1, 11), (2, 12), (3, 13), (4, 14)]\<rparr>" 300]
  by simp

subsection \<open>The risk level\<close>

text \<open>
  C1. \<^verbatim>\<open>riskLevel\<close> is total and returns one of the three levels, by the decision table
  read in order: High exactly for water with rain above 10, Medium exactly for what is left
  with water or rain above 5, Low exactly for no water and rain at most 5; with the four
  values of the specification.
\<close>

theorem riskLevel_table:
  "riskLevel water rain \<in> {''Low'', ''Medium'', ''High''}
   \<and> (riskLevel water rain = ''High'') = (water \<and> rain > 10)
   \<and> (riskLevel water rain = ''Medium'') = (\<not> (water \<and> rain > 10) \<and> (water \<or> rain > 5))
   \<and> (riskLevel water rain = ''Low'') = (\<not> water \<and> rain \<le> 5)
   \<and> riskLevel True 11 = ''High''
   \<and> riskLevel False 6 = ''Medium''
   \<and> riskLevel True 3 = ''Medium''
   \<and> riskLevel False 0 = ''Low''"
  by (auto simp: riskLevel_def)

theorem riskLevel_table_witness:
  "riskLevel True 7 = ''Medium'' \<and> riskLevel False 11 = ''Medium'' \<and> riskLevel False 5 = ''Low''"
  using riskLevel_table [of True 7] riskLevel_table [of False 11] riskLevel_table [of False 5]
  by simp

subsection \<open>The two checks\<close>

text \<open>
  C4. The water check returns \<^verbatim>\<open>true\<close> exactly when the response is a success whose body
  has a non-empty \<^verbatim>\<open>elements\<close> list, and a response that is not a success gives
  \<^verbatim>\<open>false\<close>, whatever its body, and no exception.
\<close>

theorem checkWaterAroundPoint_nonempty:
  "(fst (checkWaterAroundPoint e la lo r s) = Inr (Bool True)) =
     (\<exists>d es. overpass e (length (awaited s)) la lo r = Response True (Inr d) \<and>
             elements d = Some es \<and> es \<noteq> [])
   \<and> (\<forall>body. overpass e (length (awaited s)) la lo r = Response False body \<longrightarrow>
         fst (checkWaterAroundPoint e la lo r s) = Inr (Bool False))"
  by (auto simp: checkWaterAroundPoint_def split: http.splits sum.splits option.splits)

theorem checkWaterAroundPoint_nonempty_witness:
  "fst (checkWaterAroundPoint demo_env 10 0 60 demo_app) = Inr (Bool True)
   \<and> fst (checkWaterAroundPoint demo_env_down 10 0 60 demo_app) = Inr (Bool False)"
  using checkWaterAroundPoint_nonempty [of demo_env 10 0 60 demo_app]
    checkWaterAroundPoint_nonempty [of demo_env_down 10 0 60 demo_app]
  by (simp add: demo_env_def demo_env_down_def)

lemma js_plus_eq: "js_plus add a b = add a (case b of Null \<Rightarrow> 0 | Num x \<Rightarrow> x)"
  by (cases b) simp_all

lemma foldl_js_plus_nonneg:
  assumes add: "\<forall>a b. 0 \<le> a \<and> 0 \<le> b \<longrightarrow> 0 \<le> add a b"
    and entries: "\<forall>v. Num v \<in> set xs \<longrightarrow> 0 \<le> v"
    and acc: "0 \<le> acc"
  shows "0 \<le> foldl (js_plus add) acc xs"
  using entries acc
proof (induction xs arbitrary: acc)
  case Nil
  then show ?case by simp
next
  case (Cons x xs)
  have "0 \<le> js_plus add acc x"
  proof (cases x)
    case Null
    with add Cons.prems(2) show ?thesis by simp
  next
    case (Num v)
    with Cons.prems(1) have "0 \<le> v" by simp
    with add Cons.prems(2) Num show ?thesis by simp
  qed
  moreover have "\<forall>v. Num v \<in> set xs \<longrightarrow> 0 \<le> v"
    using Cons.prems(1) by simp
  ultimately have "0 \<le> foldl (js_plus add) (js_plus add acc x) xs"
    by (intro Cons.IH)
  then show ?case by simp
qed

text \<open>
  C5. The precipitation check returns the sum of the last three entries of the hourly series
  (of all of them when there are fewer; \<^verbatim>\<open>null\<close> counts as 0), added from the left to 0
  with the addition of the engine: for a series ending in the numbers \<open>x\<close>, \<open>y\<close>, \<open>z\<close> it is
  \<open>((0 + x) + y) + z\<close> in doubles, which is \<open>x + y + z\<close> when none of the three additions
  rounds. It is not negative when no entry is (the addition of doubles does not make a sum of
  two non-negative numbers negative). And it returns 0 when the fetch rejects, when the body
  does not parse, when the body has no hourly part or no series in it, and whenever the body
  of its \<^verbatim>\<open>try\<close> block throws.
\<close>

theorem fetchPrecipitationLastHours_sum:
  "(\<forall>ok d h series.
       open_meteo e (length (awaited s)) la lo = Response ok (Inr d) \<and>
       hourly d = Some h \<and> precipitation h = Some series \<longrightarrow>
       fst (fetchPrecipitationLastHours e la lo s) =
         foldl (\<lambda>a b. double_add e a (case b of Null \<Rightarrow> 0 | Num x \<Rightarrow> x)) 0
           (drop (length series - 3) series) \<and>
       (\<forall>pre x y z. series = pre @ [Num x, Num y, Num z] \<longrightarrow>
         fst (fetchPrecipitationLastHours e la lo s) =
           double_add e (double_add e (double_add e 0 x) y) z \<and>
         (double_add e 0 x = x \<and> double_add e x y = x + y \<and>
          double_add e (x + y) z = x + y + z \<longrightarrow>
            fst (fetchPrecipitationLastHours e la lo s) = x + y + z)) \<and>
       ((\<forall>a b. 0 \<le> a \<and> 0 \<le> b \<longrightarrow> 0 \<le> double_add e a b) \<and>
        (\<forall>v. Num v \<in> set series \<longrightarrow> 0 \<le> v) \<longrightarrow>
         0 \<le> fst (fetchPrecipitationLastHours e la lo s)))
   \<and> (\<forall>m. open_meteo e (length (awaited s)) la lo = Rejects m \<longrightarrow>
         fst (fetchPrecipitationLastHours e la lo s) = 0)
   \<and> (\<forall>ok m. open_meteo e (length (awaited s)) la lo = Response ok (Inl m) \<longrightarrow>
         fst (fetchPrecipitationLastHours e la lo s) = 0)
   \<and> (\<forall>ok d. open_meteo e (length (awaited s)) la lo = Response ok (Inr d) \<and> hourly d = None \<longrightarrow>
         fst (fetchPrecipitationLastHours e la lo s) = 0)
   \<and> (\<forall>ok d h. open_meteo e (length (awaited s)) la lo = Response ok (Inr d) \<and>
         hourly d = Some h \<and> precipitation h = None \<longrightarrow>
         fst (fetchPrecipitationLastHours e la lo s) = 0)
   \<and> (\<forall>x. fetchPrecipitation_try e la lo s = Inl x \<longrightarrow>
         fst (fetchPrecipitationLastHours e la lo s) = 0)"
proof -
  have fold: "fst (fetchPrecipitationLastHours e la lo s) =
      foldl (js_plus (double_add e)) 0 (drop (length series - 3) series)"
    if "open_meteo e (length (awaited s)) la lo = Response ok (Inr d)"
      and "hourly d = Some h" and "precipitation h = Some series" for ok d h series
    using that
    by (simp add: fetchPrecipitationLastHours_def fetchPrecipitation_try_def slice_last_def)
  have lam: "js_plus (double_add e) =
      (\<lambda>a b. double_add e a (case b of Null \<Rightarrow> 0 | Num x \<Rightarrow> x))"
    by (intro ext) (rule js_plus_eq)
  have three: "foldl (js_plus (double_add e)) 0 (drop (length series - 3) series) =
      double_add e (double_add e (double_add e 0 x) y) z"
    if "series = pre @ [Num x, Num y, Num z]" for series pre x y z
    using that by simp
  have exact: "double_add e (double_add e (double_add e 0 x) y) z = x + y + z"
    if "double_add e 0 x = x" and "double_add e x y = x + y"
      and "double_add e (x + y) z = x + y + z" for x y z
    using that by simp
  have nonneg: "0 \<le> foldl (js_plus (double_add e)) 0 (drop (length series - 3) series)"
    if "\<forall>a b. 0 \<le> a \<and> 0 \<le> b \<longrightarrow> 0 \<le> double_add e a b"
      and "\<forall>v. Num v \<in> set series \<longrightarrow> 0 \<le> v" for series
  proof (rule foldl_js_plus_nonneg [OF that(1)])
    show "\<forall>v. Num v \<in> set (drop (length series - 3) series) \<longrightarrow> 0 \<le> v"
      using that(2) by (meson in_set_dropD)
    show "(0::real) \<le> 0"
      by simp
  qed
  have fail: "fst (fetchPrecipitationLastHours e la lo s) = 0"
    if "fetchPrecipitation_try e la lo s = Inl x" for x
    using that by (simp add: fetchPrecipitationLastHours_def)
  have rest: "fst (fetchPrecipitationLastHours e la lo s) = 0"
    if "open_meteo e (length (awaited s)) la lo = Rejects m
        \<or> open_meteo e (length (awaited s)) la lo = Response ok (Inl m)
        \<or> open_meteo e (length (awaited s)) la lo = Response ok (Inr d) \<and> hourly d = None
        \<or> open_meteo e (length (awaited s)) la lo = Response ok (Inr d) \<and>
            hourly d = Some h \<and> precipitation h = None" for ok m d h
    using that
    by (auto simp: fetchPrecipitationLastHours_def fetchPrecipitation_try_def)
  have series: "fst (fetchPrecipitationLastHours e la lo s) =
         foldl (\<lambda>a b. double_add e a (case b of Null \<Rightarrow> 0 | Num x \<Rightarrow> x)) 0
           (drop (length series - 3) series) \<and>
       (\<forall>pre x y z. series = pre @ [Num x, Num y, Num z] \<longrightarrow>
         fst (fetchPrecipitationLastHours e la lo s) =
           double_add e (double_add e (double_add e 0 x) y) z \<and>
         (double_add e 0 x = x \<and> double_add e x y = x + y \<and>
          double_add e (x + y) z = x + y + z \<longrightarrow>
            fst (fetchPrecipitationLastHours e la lo s) = x + y + z)) \<and>
       ((\<forall>a b. 0 \<le> a \<and> 0 \<le> b \<longrightarrow> 0 \<le> double_add e a b) \<and>
        (\<forall>v. Num v \<in> set series \<longrightarrow> 0 \<le> v) \<longrightarrow>
         0 \<le> fst (fetchPrecipitationLastHours e la lo s))"
    if r: "open_meteo e (length (awaited s)) la lo = Response ok (Inr d)"
      and h: "hourly d = Some h" and p: "precipitation h = Some series" for ok d h series
  proof (intro conjI allI impI)
    note f = fold [OF r h p]
    show "fst (fetchPrecipitationLastHours e la lo s) =
         foldl (\<lambda>a b. double_add e a (case b of Null \<Rightarrow> 0 | Num x \<Rightarrow> x)) 0
           (drop (length series - 3) series)"
      using f by (simp only: lam)
    show "fst (fetchPrecipitationLastHours e la lo s) =
        double_add e (double_add e (double_add e 0 x) y) z"
      if "series = pre @ [Num x, Num y, Num z]" for pre x y z
      using f three [OF that] by simp
    show "fst (fetchPrecipitationLastHours e la lo s) = x + y + z"
      if "series = pre @ [Num x, Num y, Num z]"
        and "double_add e 0 x = x \<and> double_add e x y = x + y \<and>
          double_add e (x + y) z = x + y + z" for pre x y z
      using f three [OF that(1)] exact [of x y z] that(2) by simp
    show "0 \<le> fst (fetchPrecipitationLastHours e la lo s)"
      if "(\<forall>a b. 0 \<le> a \<and> 0 \<le> b \<longrightarrow> 0 \<le> double_add e a b) \<and>
        (\<forall>v. Num v \<in> set series \<longrightarrow> 0 \<le> v)"
      using f nonneg [of series] that by simp
  qed
  show ?thesis
  proof (intro conjI allI impI)
    show "fst (fetchPrecipitationLastHours e la lo s) = 0"
      if "fetchPrecipitation_try e la lo s = Inl x" for x
      using that by (rule fail)
  qed (use series rest in \<open>(elim conjE)?, blast\<close>)+
qed

theorem fetchPrecipitationLastHours_sum_witness:
  "fst (fetchPrecipitationLastHours demo_env 10 0 demo_app) = 12
   \<and> fst (fetchPrecipitationLastHours demo_env_down 10 0 demo_app) = 0"
proof
  have up: "open_meteo demo_env (length (awaited demo_app)) 10 0 =
      Response True (Inr \<lparr>hourly = Some \<lparr>precipitation = Some [Num 1, Num 2, Num 4, Num 6]\<rparr>\<rparr>)"
    by (simp add: demo_env_def)
  have add: "double_add demo_env = (\<lambda>a b. a + b)"
    by (simp add: demo_env_def)
  show "fst (fetchPrecipitationLastHours demo_env 10 0 demo_app) = 12"
    using fetchPrecipitationLastHours_sum [of demo_env demo_app 10 0, THEN conjunct1,
        rule_format, of True "\<lparr>hourly = Some \<lparr>precipitation = Some [Num 1, Num 2, Num 4, Num 6]\<rparr>\<rparr>"
        "\<lparr>precipitation = Some [Num 1, Num 2, Num 4, Num 6]\<rparr>" "[Num 1, Num 2, Num 4, Num 6]",
        THEN conjunct1]
    by (simp add: up add)
  have down: "open_meteo demo_env_down (length (awaited demo_app)) 10 0 = Rejects ''Failed to fetch''"
    by (simp add: demo_env_down_def)
  show "fst (fetchPrecipitationLastHours demo_env_down 10 0 demo_app) = 0"
    using fetchPrecipitationLastHours_sum [of demo_env_down demo_app 10 0, THEN conjunct2,
        THEN conjunct1, rule_format, of "''Failed to fetch''"]
    by (simp add: down)
qed

subsection \<open>How the state moves\<close>

lemma suspend_fields:
  "awaited (suspend r s) = awaited s @ [(r, checking s)]"
  "checking (suspend r s) = checking s"
  "status (suspend r s) = status s"
  "routeGeo (suspend r s) = routeGeo s"
  "samplesMarkers (suspend r s) = samplesMarkers s"
  by (simp_all add: suspend_def)

lemma setStyle_fields:
  "awaited (setStyle i c s) = awaited s"
  "checking (setStyle i c s) = checking s"
  "status (setStyle i c s) = status s"
  by (simp_all add: setStyle_def)

lemma geocode_state: "snd (geocode e a s) = suspend (Geocode a) s"
  by (simp add: geocode_def)

lemma getRoute_state: "snd (getRoute e f t s) = suspend (Route f t) s"
  by (simp add: getRoute_def)

lemma checkWaterAroundPoint_state:
  "snd (checkWaterAroundPoint e la lo r s) = suspend (Water la lo r) s"
  by (simp add: checkWaterAroundPoint_def)

lemma fetchPrecipitationLastHours_state:
  "snd (fetchPrecipitationLastHours e la lo s) = suspend (Rain la lo) s"
  by (simp add: fetchPrecipitationLastHours_def)

lemma resolve_pinned: "resolve e (Some p) a s = (Inr (Some p), s)"
  by (simp add: resolve_def)

lemma grows_refl: "grows P s s"
  by (simp add: grows_def)

lemma grows_trans: "grows P s s' \<Longrightarrow> grows P s' s'' \<Longrightarrow> grows P s s''"
  by (auto simp: grows_def)

lemma check_samples_grows:
  "grows (\<lambda>x. sample_request (fst x) \<and> snd x = checking s) s (snd (check_samples e ps acc s))"
proof (induction ps arbitrary: acc s)
  case Nil
  show ?case by (cases acc) (simp add: grows_refl)
next
  case (Cons p ps)
  obtain w m where acc: "acc = (w, m)" by (cases acc)
  let ?P = "\<lambda>x. sample_request (fst x) \<and> snd x = checking s"
  define s1 where "s1 = s\<lparr>samplesMarkers :=
      samplesMarkers s @ [\<lparr>latlng = \<lparr>lat = lat p, lon = lon p\<rparr>, radius = 5, color = None\<rparr>]\<rparr>"
  define s2 where "s2 = suspend (Water (lat p) (lon p) 60) s1"
  have g2: "grows ?P s s2"
    by (simp add: grows_def s2_def s1_def suspend_fields sample_request_def)
  show ?case
  proof (cases "fst (checkWaterAroundPoint e (lat p) (lon p) 60 s1)")
    case (Inl x)
    then have "snd (check_samples e (p # ps) acc s) = s2"
      by (simp add: acc split_beta Let_def checkWaterAroundPoint_state s1_def s2_def)
    with g2 show ?thesis by simp
  next
    case (Inr hasWater)
    define s3 where "s3 = (if truthy hasWater then setStyle (length (samplesMarkers s)) ''#1e88e5'' s2 else s2)"
    define s4 where "s4 = suspend (Rain (lat p) (lon p)) s3"
    define rain where "rain = fst (fetchPrecipitationLastHours e (lat p) (lon p) s3)"
    define s5 where "s5 = (if rain > 10 then setStyle (length (samplesMarkers s)) ''#d32f2f'' s4
        else if rain > 5 then setStyle (length (samplesMarkers s)) ''#f57c00'' s4 else s4)"
    have step: "check_samples e (p # ps) acc s =
        check_samples e ps (if truthy hasWater then True else w, max m rain) s5"
      using Inr
      by (simp add: acc split_beta Let_def checkWaterAroundPoint_state
          fetchPrecipitationLastHours_state s1_def s2_def s3_def s4_def s5_def rain_def)
    have c5: "checking s5 = checking s"
      by (simp add: s5_def s4_def s3_def s2_def s1_def suspend_fields setStyle_fields)
    have "grows ?P s2 s5"
      by (simp add: grows_def s5_def s4_def s3_def s2_def s1_def suspend_fields setStyle_fields
          sample_request_def)
    with g2 have g5: "grows ?P s s5"
      by (rule grows_trans)
    have "grows (\<lambda>x. sample_request (fst x) \<and> snd x = checking s5) s5
        (snd (check_samples e ps (if truthy hasWater then True else w, max m rain) s5))"
      by (rule Cons.IH)
    then have "grows ?P s5 (snd (check_samples e (p # ps) acc s))"
      by (simp only: step c5)
    with g5 show ?thesis
      by (rule grows_trans)
  qed
qed


lemma Max_insert_max:
  fixes m x :: real
  assumes "finite A"
  shows "Max (insert (max m x) A) = Max (insert m (insert x A))"
proof (cases "A = {}")
  case True
  then show ?thesis by (simp add: max.commute)
next
  case False
  with assms show ?thesis by (simp add: max.assoc)
qed

lemma check_samples_result:
  assumes water: "\<forall>p\<in>set ps. \<forall>s. fst (checkWaterAroundPoint e (lat p) (lon p) 60 s) = Inr (water_at p)"
    and rain: "\<forall>p\<in>set ps. \<forall>s. fst (fetchPrecipitationLastHours e (lat p) (lon p) s) = rain_at p"
  shows "fst (check_samples e ps (w, m) s) =
         Inr (w \<or> (\<exists>p\<in>set ps. truthy (water_at p)), Max (insert m (rain_at ` set ps)))"
  using water rain
proof (induction ps arbitrary: w m s)
  case Nil
  show ?case by simp
next
  case (Cons p ps)
  have wp: "fst (checkWaterAroundPoint e (lat p) (lon p) 60 s') = Inr (water_at p)" for s'
    using Cons.prems(1) by simp
  have rp: "fst (fetchPrecipitationLastHours e (lat p) (lon p) s') = rain_at p" for s'
    using Cons.prems(2) by simp
  have "\<exists>s'. check_samples e (p # ps) (w, m) s =
      check_samples e ps (if truthy (water_at p) then True else w, max m (rain_at p)) s'"
    by (simp add: split_beta Let_def wp rp del: ex_simps) blast
  then obtain s' where step: "check_samples e (p # ps) (w, m) s =
      check_samples e ps (if truthy (water_at p) then True else w, max m (rain_at p)) s'"
    by blast
  have "fst (check_samples e ps (if truthy (water_at p) then True else w, max m (rain_at p)) s') =
      Inr ((if truthy (water_at p) then True else w) \<or> (\<exists>p\<in>set ps. truthy (water_at p)),
           Max (insert (max m (rain_at p)) (rain_at ` set ps)))"
    using Cons.prems by (intro Cons.IH) simp_all
  moreover have "Max (insert (max m (rain_at p)) (rain_at ` set ps)) = Max (insert m (rain_at ` set (p # ps)))"
    by (simp add: Max_insert_max)
  moreover have "((if truthy (water_at p) then True else w) \<or> (\<exists>p\<in>set ps. truthy (water_at p))) =
      (w \<or> (\<exists>q\<in>set (p # ps). truthy (water_at q)))"
    by auto
  ultimately show ?case
    by (simp only: step)
qed

lemma handleCheckRoute_done:
  assumes origin: "\<forall>s'. fst (resolve e (origin s) (originAddr s) s') = Inr (Some f)"
    and dest: "\<forall>s'. fst (resolve e (dest s) (destAddr s) s') = Inr (Some t)"
    and route: "\<forall>s'. fst (getRoute e f t s') = Inr g"
    and water: "\<forall>p\<in>set (sampleLineString g 300). \<forall>s'.
        fst (checkWaterAroundPoint e (lat p) (lon p) 60 s') = Inr (water_at p)"
    and rain: "\<forall>p\<in>set (sampleLineString g 300). \<forall>s'.
        fst (fetchPrecipitationLastHours e (lat p) (lon p) s') = rain_at p"
  shows "status (handleCheckRoute e s) =
         final_status e (\<exists>p\<in>set (sampleLineString g 300). truthy (water_at p))
           (Max (insert 0 (rain_at ` set (sampleLineString g 300))))"
proof -
  have loop: "fst (check_samples e (sampleLineString g 300) (False, 0) s') =
      Inr ((\<exists>p\<in>set (sampleLineString g 300). truthy (water_at p)),
           Max (insert 0 (rain_at ` set (sampleLineString g 300))))" for s'
    using check_samples_result [OF water rain, of False 0 s'] by simp
  have o: "fst (resolve e (origin s) (originAddr s) s') = Inr (Some f)" for s'
    using origin by simp
  have d: "fst (resolve e (dest s) (destAddr s) s') = Inr (Some t)" for s'
    using dest by simp
  have r: "fst (getRoute e f t s') = Inr g" for s'
    using route by simp
  show ?thesis
    by (simp add: handleCheckRoute_def handleCheckRoute_try_def handleCheckRoute_assess_def
        split_beta Let_def o d r loop)
qed

lemma decimal_small: "n < 10 \<Longrightarrow> decimal n = [digit n]"
  by (subst decimal.simps) simp

lemma decimal_large: "\<not> n < 10 \<Longrightarrow> decimal n = decimal (n div 10) @ [digit (n mod 10)]"
  by (subst decimal.simps) simp

lemma decimal_nonempty: "decimal n \<noteq> []"
  by (cases "n < 10") (simp_all add: decimal_small decimal_large)

lemma toFixed_one_place:
  assumes "0 \<le> x" and "x < 10 ^ 21"
  shows "toFixed ts x 1 =
         decimal (nat \<lfloor>x * 10 + 1 / 2\<rfloor> div 10) @ ''.'' @ [digit (nat \<lfloor>x * 10 + 1 / 2\<rfloor> mod 10)]"
proof -
  define n where "n = nat \<lfloor>x * 10 + 1 / 2\<rfloor>"
  have pad: "(let m = decimal n; k = length m;
                 m = (if k \<le> 1 then replicate (1 + 1 - k) (CHR ''0'') @ m else m);
                 k = (if k \<le> 1 then 1 + 1 else k)
             in take (k - 1) m @ ''.'' @ drop (k - 1) m) =
        decimal (n div 10) @ ''.'' @ [digit (n mod 10)]"
  proof (cases "n < 10")
    case True
    then have "decimal n = [digit n]" and "decimal (n div 10) = [digit 0]"
      by (simp_all add: decimal_small)
    then show ?thesis
      using True by (simp add: digit_def)
  next
    case False
    then have "decimal n = decimal (n div 10) @ [digit (n mod 10)]"
      by (rule decimal_large)
    then show ?thesis
      using decimal_nonempty [of "n div 10"] by (simp add: Let_def)
  qed
  from assms have "toFixed ts x 1 =
      (let m = decimal n; k = length m;
           m = (if k \<le> 1 then replicate (1 + 1 - k) (CHR ''0'') @ m else m);
           k = (if k \<le> 1 then 1 + 1 else k)
       in take (k - 1) m @ ''.'' @ drop (k - 1) m)"
    by (simp add: toFixed_def n_def Let_def)
  with pad show ?thesis
    by (simp only: n_def)
qed

subsection \<open>Runs that reach the end\<close>

lemma final_status_default:
  "final_status e False 0 = ''Risk Level: Low. Mapped water: No, Rain (last 3h): 0.0 mm''"
  by (simp add: final_status_def riskLevel_def toFixed_def decimal_small digit_def)

lemma handleCheckRoute_checking: "checking (handleCheckRoute e s) = False"
  by (simp add: handleCheckRoute_def split_beta split: sum.split)

text \<open>
  C3. Soft failures do not stop a run: when both endpoints resolve, the router returns a
  route, and for every sample the water check returns \<^verbatim>\<open>false\<close> and the precipitation check
  returns 0 (the values they fall back to), the run ends with the status of a finished
  assessment, which reports the level Low, no mapped water and 0.0 mm of rain, and with the
  in-flight flag reset.
\<close>

theorem soft_failures_reach_done:
  assumes "\<forall>s'. fst (resolve e (origin s) (originAddr s) s') = Inr (Some f)"
    and "\<forall>s'. fst (resolve e (dest s) (destAddr s) s') = Inr (Some t)"
    and "\<forall>s'. fst (getRoute e f t s') = Inr g"
    and "\<forall>p\<in>set (sampleLineString g 300). \<forall>s'.
        fst (checkWaterAroundPoint e (lat p) (lon p) 60 s') = Inr (Bool False)"
    and "\<forall>p\<in>set (sampleLineString g 300). \<forall>s'.
        fst (fetchPrecipitationLastHours e (lat p) (lon p) s') = 0"
  shows "status (handleCheckRoute e s) =
           ''Risk Level: Low. Mapped water: No, Rain (last 3h): 0.0 mm''
         \<and> checking (handleCheckRoute e s) = False"
proof -
  have "Max (insert 0 ((\<lambda>p. 0) ` set (sampleLineString g 300))) = (0::real)"
    by (cases "set (sampleLineString g 300) = {}") simp_all
  then have "status (handleCheckRoute e s) = final_status e False 0"
    using handleCheckRoute_done [OF assms] by simp
  then show ?thesis
    by (simp add: final_status_default handleCheckRoute_checking)
qed

lemma demo_resolve_origin: "fst (resolve demo_env (origin demo_app) (originAddr demo_app) s') = Inr (Some \<lparr>lat = 1, lon = 2\<rparr>)"
  by (simp add: resolve_def geocode_def demo_env_def demo_env_down_def demo_app_def)

lemma demo_resolve_dest: "fst (resolve demo_env (dest demo_app) (destAddr demo_app) s') = Inr (Some \<lparr>lat = 3, lon = 4\<rparr>)"
  by (simp add: resolve_def geocode_def demo_env_def demo_env_down_def demo_app_def)

lemma demo_getRoute: "fst (getRoute demo_env f t s') =
    Inr \<lparr>coordinates = [(0, 10), (1, 11), (2, 12), (3, 13), (4, 14)]\<rparr>"
  by (simp add: getRoute_def demo_env_def demo_env_down_def)

lemma demo_down_same:
  "nominatim demo_env_down = nominatim demo_env" "osrm demo_env_down = osrm demo_env"
  by (simp_all add: demo_env_down_def)

lemma demo_down_resolve: "resolve demo_env_down p a s = resolve demo_env p a s"
  by (cases p) (simp_all add: resolve_def geocode_def demo_down_same)

lemma demo_down_getRoute: "getRoute demo_env_down f t s = getRoute demo_env f t s"
  by (simp add: getRoute_def demo_down_same)

lemma demo_down_water: "fst (checkWaterAroundPoint demo_env_down la lo r s') = Inr (Bool False)"
  by (simp add: checkWaterAroundPoint_def demo_env_down_def)

lemma demo_down_rain: "fst (fetchPrecipitationLastHours demo_env_down la lo s') = 0"
  by (simp add: fetchPrecipitationLastHours_def fetchPrecipitation_try_def demo_env_down_def)

theorem soft_failures_reach_done_witness:
  "status (handleCheckRoute demo_env_down demo_app) =
     ''Risk Level: Low. Mapped water: No, Rain (last 3h): 0.0 mm''
   \<and> checking (handleCheckRoute demo_env_down demo_app) = False"
  by (rule soft_failures_reach_done
      [where f = "\<lparr>lat = 1, lon = 2\<rparr>" and t = "\<lparr>lat = 3, lon = 4\<rparr>"
        and g = "\<lparr>coordinates = [(0, 10), (1, 11), (2, 12), (3, 13), (4, 14)]\<rparr>"])
    (simp_all add: demo_down_resolve demo_down_getRoute demo_resolve_origin demo_resolve_dest
      demo_getRoute demo_down_water demo_down_rain)


lemma sampleLineString_short:
  assumes "coordinates g \<noteq> []" and "length (coordinates g) < 10"
  shows "sampleLineString g spacing = [point_of (hd (coordinates g))]"
proof -
  from assms have "(length (coordinates g) + 9) div 10 = 1"
    by (intro count_one) simp_all
  then have "sampleLineString g spacing = [point_of (coordinates g ! 0)]"
    by (simp add: sampleLineString_def sample_loop_indices)
  with assms(1) show ?thesis
    by (simp add: hd_conv_nth)
qed

lemma final_status_high:
  "final_status e True 12 = ''Risk Level: High. Mapped water: Yes, Rain (last 3h): 12.0 mm''"
  by (simp add: final_status_def riskLevel_def toFixed_def decimal_small decimal_large digit_def)

text \<open>
  C6. When both endpoints resolve, the router returns the route \<open>g\<close>, and the checks answer
  \<open>water_at p\<close> and \<open>rain_at p\<close> at every sample \<open>p\<close>, the run publishes the status made of
  the risk level of the pair (some sample has water, greatest rain of the samples), "Yes" or
  "No" for that water flag, and that greatest rain through \<^verbatim>\<open>toFixed(1)\<close>, which below
  \<open>10\<^sup>2\<^sup>1\<close> is the decimal numeral of the tenths rounded to nearest with a point before its
  last digit. For a route of 5 vertices whose first vertex has water and 12 mm of rain, the
  status is "Risk Level: High. Mapped water: Yes, Rain (last 3h): 12.0 mm".
\<close>

theorem final_status_reports:
  fixes g :: geometry and water_at :: "point \<Rightarrow> jsval" and rain_at :: "point \<Rightarrow> real"
  defines "W \<equiv> \<exists>p\<in>set (sampleLineString g 300). truthy (water_at p)"
    and "M \<equiv> Max (insert 0 (rain_at ` set (sampleLineString g 300)))"
  assumes origin: "\<forall>s'. fst (resolve e (origin s) (originAddr s) s') = Inr (Some f)"
    and dest: "\<forall>s'. fst (resolve e (dest s) (destAddr s) s') = Inr (Some t)"
    and route: "\<forall>s'. fst (getRoute e f t s') = Inr g"
    and water: "\<forall>p\<in>set (sampleLineString g 300). \<forall>s'.
        fst (checkWaterAroundPoint e (lat p) (lon p) 60 s') = Inr (water_at p)"
    and rain: "\<forall>p\<in>set (sampleLineString g 300). \<forall>s'.
        fst (fetchPrecipitationLastHours e (lat p) (lon p) s') = rain_at p"
  shows "status (handleCheckRoute e s) =
           ''Risk Level: '' @ riskLevel W M @
           ''. Mapped water: '' @ (if W then ''Yes'' else ''No'') @
           '', Rain (last 3h): '' @ toFixed (number_toString e) M 1 @ '' mm''
         \<and> (M < 10 ^ 21 \<longrightarrow>
              toFixed (number_toString e) M 1 =
                decimal (nat \<lfloor>M * 10 + 1 / 2\<rfloor> div 10) @ ''.'' @
                [digit (nat \<lfloor>M * 10 + 1 / 2\<rfloor> mod 10)])
         \<and> (length (coordinates g) = 5 \<and>
              water_at (point_of (hd (coordinates g))) = Bool True \<and>
              rain_at (point_of (hd (coordinates g))) = 12 \<longrightarrow>
              status (handleCheckRoute e s) =
                ''Risk Level: High. Mapped water: Yes, Rain (last 3h): 12.0 mm'')"
proof -
  have st: "status (handleCheckRoute e s) = final_status e W M"
    unfolding W_def M_def by (rule handleCheckRoute_done [OF origin dest route water rain])
  have "0 \<le> M"
    unfolding M_def by (rule Max_ge) simp_all
  then have place: "toFixed (number_toString e) M 1 =
      decimal (nat \<lfloor>M * 10 + 1 / 2\<rfloor> div 10) @ ''.'' @
      [digit (nat \<lfloor>M * 10 + 1 / 2\<rfloor> mod 10)]" if "M < 10 ^ 21"
    using that by (rule toFixed_one_place)
  have high: "status (handleCheckRoute e s) =
      ''Risk Level: High. Mapped water: Yes, Rain (last 3h): 12.0 mm''"
    if "length (coordinates g) = 5"
      and "water_at (point_of (hd (coordinates g))) = Bool True"
      and "rain_at (point_of (hd (coordinates g))) = 12"
  proof -
    from that(1) have "coordinates g \<noteq> []" and "length (coordinates g) < 10"
      by auto
    then have "sampleLineString g 300 = [point_of (hd (coordinates g))]"
      by (rule sampleLineString_short)
    with that(2,3) have "W" and "M = 12"
      by (simp_all add: W_def M_def)
    with st show ?thesis
      by (simp add: final_status_high)
  qed
  from st place high show ?thesis
    by (simp add: final_status_def)
qed

lemma demo_water: "fst (checkWaterAroundPoint demo_env la lo r s') = Inr (Bool True)"
  by (simp add: checkWaterAroundPoint_def demo_env_def)

lemma demo_rain: "fst (fetchPrecipitationLastHours demo_env la lo s') = 12"
  by (simp add: fetchPrecipitationLastHours_def fetchPrecipitation_try_def demo_env_def
      slice_last_def)

theorem final_status_reports_witness:
  "status (handleCheckRoute demo_env demo_app) =
     ''Risk Level: High. Mapped water: Yes, Rain (last 3h): 12.0 mm''"
proof -
  have "length (coordinates \<lparr>coordinates = [(0, 10), (1, 11), (2, 12), (3, 13), (4, 14)]\<rparr>) = 5 \<and>
      Bool True = Bool True \<and> (12::real) = 12"
    by simp
  then show ?thesis
    by (rule final_status_reports
        [where f = "\<lparr>lat = 1, lon = 2\<rparr>" and t = "\<lparr>lat = 3, lon = 4\<rparr>"
          and g = "\<lparr>coordinates = [(0, 10), (1, 11), (2, 12), (3, 13), (4, 14)]\<rparr>"
          and water_at = "\<lambda>p. Bool True" and rain_at = "\<lambda>p. 12" and e = demo_env
          and s = demo_app,
          THEN conjunct2, THEN conjunct2, rule_format, rotated 5])
      (simp_all add: demo_resolve_origin demo_resolve_dest demo_getRoute demo_water demo_rain)
qed

subsection \<open>What a run waits for\<close>

lemma handleCheckRoute_awaited:
  "awaited (handleCheckRoute e s) = awaited (snd (handleCheckRoute_try e s))"
  by (simp add: handleCheckRoute_def split_beta split: sum.split)

lemma handleCheckRoute_status:
  "status (handleCheckRoute e s) =
     (case fst (handleCheckRoute_try e s) of
        Inl x \<Rightarrow> ''Error: '' @ message x
      | Inr u \<Rightarrow> status (snd (handleCheckRoute_try e s)))"
  by (simp add: handleCheckRoute_def split_beta split: sum.split)

lemma run_log_eq:
  "awaited (snd (handleCheckRoute_try e s)) = awaited s @ new \<Longrightarrow> run_log e s = new"
  by (simp add: run_log_def handleCheckRoute_awaited)

lemma handleCheckRoute_assess_log:
  "checking (snd (handleCheckRoute_assess e f t s)) = checking s \<and>
   (\<exists>new. awaited (snd (handleCheckRoute_assess e f t s)) =
            awaited s @ (Route f t, checking s) # new \<and>
          (\<forall>x\<in>set new. (fst x = ImportLeaflet \<or> sample_request (fst x)) \<and> snd x = checking s))"
proof (cases "fst (getRoute e f t (s\<lparr>status := ''Getting route...''\<rparr>))")
  case (Inl x)
  then have "snd (handleCheckRoute_assess e f t s) =
      suspend (Route f t) (s\<lparr>status := ''Getting route...''\<rparr>)"
    by (simp add: handleCheckRoute_assess_def split_beta getRoute_state)
  then show ?thesis
    by (simp add: suspend_fields)
next
  case (Inr geom)
  define s10 where "s10 =
    (suspend ImportLeaflet
      ((suspend (Route f t) (s\<lparr>status := ''Getting route...''\<rparr>))
         \<lparr>routeGeo := Some geom\<rparr>\<lparr>status := ''Checking water and rainfall...''\<rparr>))
      \<lparr>samplesMarkers := []\<rparr>"
  define s11 where "s11 = snd (check_samples e (sampleLineString geom 300) (False, 0) s10)"
  have c10: "checking s10 = checking s"
    and a10: "awaited s10 = awaited s @ [(Route f t, checking s), (ImportLeaflet, checking s)]"
    by (simp_all add: s10_def suspend_fields)
  have "grows (\<lambda>x. sample_request (fst x) \<and> snd x = checking s10) s10 s11"
    unfolding s11_def by (rule check_samples_grows)
  then obtain new where c11: "checking s11 = checking s"
    and a11: "awaited s11 = awaited s10 @ new"
    and new: "\<forall>x\<in>set new. sample_request (fst x) \<and> snd x = checking s"
    unfolding grows_def c10 by blast
  have "awaited (snd (handleCheckRoute_assess e f t s)) = awaited s11
      \<and> checking (snd (handleCheckRoute_assess e f t s)) = checking s11"
    using Inr
    by (simp add: handleCheckRoute_assess_def split_beta Let_def getRoute_state s10_def s11_def
        split: sum.split)
  with c11 a11 a10 have "checking (snd (handleCheckRoute_assess e f t s)) = checking s"
    and "awaited (snd (handleCheckRoute_assess e f t s)) =
      awaited s @ (Route f t, checking s) # ((ImportLeaflet, checking s) # new)"
    by simp_all
  moreover from new have "\<forall>x\<in>set ((ImportLeaflet, checking s) # new).
      (fst x = ImportLeaflet \<or> sample_request (fst x)) \<and> snd x = checking s"
    by simp
  ultimately show ?thesis
    by blast
qed

text \<open>
  The four ways through the \<^verbatim>\<open>try\<close> block, with what each waits for: the origin lookup
  throws; the destination lookup throws; both return and one of them is \<^verbatim>\<open>null\<close>; both
  return a location and the assessment of the route starts.
\<close>

lemma handleCheckRoute_try_cases:
  fixes e :: env and s :: app
  defines "s2 \<equiv> s\<lparr>status := [], checking := True\<rparr>"
  defines "r1 \<equiv> fst (resolve e (origin s) (originAddr s) s2)"
  defines "s3 \<equiv> snd (resolve e (origin s) (originAddr s) s2)"
  defines "r2 \<equiv> fst (resolve e (dest s) (destAddr s) s3)"
  defines "pre3 \<equiv> (case origin s of None \<Rightarrow> [(Geocode (originAddr s), True)] | Some p \<Rightarrow> [])"
  defines "pre4 \<equiv> (case dest s of None \<Rightarrow> [(Geocode (destAddr s), True)] | Some p \<Rightarrow> [])"
  obtains
    (origin_throws) x where "r1 = Inl x" and "fst (handleCheckRoute_try e s) = Inl x"
      and "awaited (snd (handleCheckRoute_try e s)) = awaited s @ pre3"
  | (dest_throws) p x where "r1 = Inr p" and "r2 = Inl x"
      and "fst (handleCheckRoute_try e s) = Inl x"
      and "awaited (snd (handleCheckRoute_try e s)) = awaited s @ pre3 @ pre4"
  | (invalid) p q where "r1 = Inr p" and "r2 = Inr q" and "p = None \<or> q = None"
      and "fst (handleCheckRoute_try e s) = Inl (Error ''Invalid locations'')"
      and "awaited (snd (handleCheckRoute_try e s)) = awaited s @ pre3 @ pre4"
  | (assess) f t rest where "r1 = Inr (Some f)" and "r2 = Inr (Some t)"
      and "awaited (snd (handleCheckRoute_try e s)) =
           awaited s @ pre3 @ pre4 @ (Route f t, True) # rest"
      and "\<forall>x\<in>set rest. (fst x = ImportLeaflet \<or> sample_request (fst x)) \<and> snd x = True"
proof -
  define s4 where "s4 = snd (resolve e (dest s) (destAddr s) s3)"
  have s3: "awaited s3 = awaited s @ pre3" "checking s3 = True"
    by (simp_all add: s3_def s2_def pre3_def resolve_def geocode_state suspend_fields
        split: option.split)
  have s4: "awaited s4 = awaited s @ pre3 @ pre4" "checking s4 = True"
    using s3
    by (simp_all add: s4_def pre4_def resolve_def geocode_state suspend_fields
        split: option.split)
  show thesis
  proof (cases r1)
    case (Inl x)
    then have "handleCheckRoute_try e s = (Inl x, s3)"
      by (simp add: handleCheckRoute_try_def split_beta Let_def r1_def s2_def s3_def)
    with Inl s3 show thesis
      by (intro origin_throws [of x]) simp_all
  next
    case r1: (Inr p)
    show thesis
    proof (cases r2)
      case (Inl x)
      with r1 have "handleCheckRoute_try e s = (Inl x, s4)"
        by (simp add: handleCheckRoute_try_def split_beta Let_def r1_def r2_def s2_def s3_def
            s4_def)
      with r1 Inl s4 show thesis
        by (intro dest_throws [of p x]) simp_all
    next
      case r2: (Inr q)
      show thesis
      proof (cases "p = None \<or> q = None")
        case True
        with r1 r2 have "handleCheckRoute_try e s = (Inl (Error ''Invalid locations''), s4)"
          by (cases p; cases q)
            (simp_all add: handleCheckRoute_try_def split_beta Let_def r1_def r2_def s2_def
              s3_def s4_def)
        with r1 r2 True s4 show thesis
          by (intro invalid [of p q]) simp_all
      next
        case False
        then obtain f t where p: "p = Some f" and q: "q = Some t"
          by auto
        with r1 r2 have run: "handleCheckRoute_try e s = handleCheckRoute_assess e f t s4"
          by (simp add: handleCheckRoute_try_def split_beta Let_def r1_def r2_def s2_def s3_def
              s4_def)
        from handleCheckRoute_assess_log [of e f t s4] s4 obtain rest where
          "awaited (snd (handleCheckRoute_assess e f t s4)) =
             awaited s @ pre3 @ pre4 @ (Route f t, True) # rest"
          and "\<forall>x\<in>set rest. (fst x = ImportLeaflet \<or> sample_request (fst x)) \<and> snd x = True"
          by auto
        with r1 r2 p q run show thesis
          by (intro assess [of f t rest]) simp_all
      qed
    qed
  qed
qed

lemma geocode_no_candidate:
  assumes "\<forall>n. \<exists>ok. nominatim e n a = Response ok (Inr (Some []))"
  shows "fst (geocode e a s) = Inr None"
proof -
  from assms obtain ok where "nominatim e (length (awaited s)) a = Response ok (Inr (Some []))"
    by blast
  then show ?thesis
    by (simp add: geocode_def)
qed


lemma unpinned_lookups_geocode:
  "\<forall>x\<in>set ((case p of None \<Rightarrow> [(Geocode a, True)] | Some c \<Rightarrow> []) @
               (case q of None \<Rightarrow> [(Geocode b, True)] | Some c \<Rightarrow> [])).
     (\<exists>a'. fst x = Geocode a') \<and> snd x = True"
  by (cases p; cases q) simp_all

text \<open>
  C7. When the destination is not pinned and the geocoder finds no candidate for its
  address, the run ends with an error status (the message "Invalid locations" when the
  origin is pinned) and the flag reset, and everything it waited for is a geocoding
  request: no route request, no water check and no precipitation check.
\<close>

theorem destination_not_found_stops_run:
  assumes d: "dest s = None"
    and none: "\<forall>n. \<exists>ok. nominatim e n (destAddr s) = Response ok (Inr (Some []))"
  shows "(\<exists>m. status (handleCheckRoute e s) = ''Error: '' @ m)
       \<and> (origin s \<noteq> None \<longrightarrow> status (handleCheckRoute e s) = ''Error: Invalid locations'')
       \<and> checking (handleCheckRoute e s) = False
       \<and> awaited (handleCheckRoute e s) = awaited s @ run_log e s
       \<and> (\<forall>x\<in>set (run_log e s). \<exists>a. fst x = Geocode a)
       \<and> (\<forall>x\<in>set (run_log e s). \<forall>f t la lo r.
             fst x \<noteq> Route f t \<and> fst x \<noteq> Water la lo r \<and> fst x \<noteq> Rain la lo)"
proof -
  have r2: "fst (resolve e (dest s) (destAddr s) s') = Inr None" for s'
    using d none by (simp add: resolve_def geocode_no_candidate)
  have fin: ?thesis
    if "fst (handleCheckRoute_try e s) = Inl x"
      and "awaited (snd (handleCheckRoute_try e s)) = awaited s @ new"
      and "\<forall>y\<in>set new. (\<exists>a. fst y = Geocode a) \<and> snd y = True"
      and "origin s \<noteq> None \<longrightarrow> x = Error ''Invalid locations''" for x new
  proof -
    from that(2) have "run_log e s = new"
      by (rule run_log_eq)
    moreover from that(3) have "\<forall>y\<in>set new. \<forall>f t la lo r.
        fst y \<noteq> Route f t \<and> fst y \<noteq> Water la lo r \<and> fst y \<noteq> Rain la lo"
      by auto
    ultimately show ?thesis
      using that by (simp add: handleCheckRoute_status handleCheckRoute_awaited
          handleCheckRoute_checking)
  qed
  show ?thesis
  proof (rule handleCheckRoute_try_cases [of e s], goal_cases)
    case (1 x)
    from 1(1) have "origin s = None"
      by (cases "origin s") (simp_all add: resolve_def)
    with 1 show ?case
      by (intro fin [of x "[(Geocode (originAddr s), True)]"]) simp_all
  next
    case (2 p x)
    with r2 show ?case by simp
  next
    case (3 p q)
    note geo = unpinned_lookups_geocode [of "originAddr s" "origin s" "destAddr s" "dest s"]
    from 3(4) 3(5) geo show ?case
      by (rule fin) simp
  next
    case (4 f t rest)
    with r2 show ?case by simp
  qed
qed

theorem destination_not_found_stops_run_witness:
  "\<exists>m. status (handleCheckRoute demo_env (demo_app\<lparr>destAddr := ''C''\<rparr>)) = ''Error: '' @ m"
proof -
  have "dest (demo_app\<lparr>destAddr := ''C''\<rparr>) = None"
    by (simp add: demo_app_def)
  moreover have "\<forall>n. \<exists>ok. nominatim demo_env n (destAddr (demo_app\<lparr>destAddr := ''C''\<rparr>)) =
      Response ok (Inr (Some []))"
    by (auto simp: demo_env_def demo_app_def)
  ultimately show ?thesis
    by (rule destination_not_found_stops_run [THEN conjunct1])
qed

text \<open>
  C10. When neither endpoint is pinned and the geocoder finds no candidate for the origin
  address, the run still waits for the lookup of the destination address, and for nothing
  else, before it ends with an error status.
\<close>

theorem origin_not_found_destination_queried:
  assumes o: "origin s = None" and d: "dest s = None"
    and none: "\<forall>n. \<exists>ok. nominatim e n (originAddr s) = Response ok (Inr (Some []))"
  shows "run_log e s = [(Geocode (originAddr s), True), (Geocode (destAddr s), True)]
       \<and> awaited (handleCheckRoute e s) = awaited s @ run_log e s
       \<and> (\<exists>m. status (handleCheckRoute e s) = ''Error: '' @ m)
       \<and> checking (handleCheckRoute e s) = False"
proof -
  have r1: "fst (resolve e (origin s) (originAddr s) s') = Inr None" for s'
    using o none by (simp add: resolve_def geocode_no_candidate)
  have fin: ?thesis
    if "fst (handleCheckRoute_try e s) = Inl x"
      and "awaited (snd (handleCheckRoute_try e s)) =
        awaited s @ [(Geocode (originAddr s), True), (Geocode (destAddr s), True)]" for x
  proof -
    from that(2) have "run_log e s = [(Geocode (originAddr s), True), (Geocode (destAddr s), True)]"
      by (rule run_log_eq)
    then show ?thesis
      using that by (simp add: handleCheckRoute_status handleCheckRoute_awaited
          handleCheckRoute_checking)
  qed
  show ?thesis
  proof (rule handleCheckRoute_try_cases [of e s], goal_cases)
    case (1 x)
    with r1 show ?case by simp
  next
    case (2 p x)
    then show ?case
      using o d by (intro fin [of x]) simp_all
  next
    case (3 p q)
    then show ?case
      using o d by (intro fin) simp_all
  next
    case (4 f t rest)
    with r1 show ?case by simp
  qed
qed

theorem origin_not_found_destination_queried_witness:
  "run_log demo_env (demo_app\<lparr>originAddr := ''C''\<rparr>) = [(Geocode ''C'', True), (Geocode ''B'', True)]"
proof -
  have "origin (demo_app\<lparr>originAddr := ''C''\<rparr>) = None"
    and "dest (demo_app\<lparr>originAddr := ''C''\<rparr>) = None"
    by (simp_all add: demo_app_def)
  moreover have "\<forall>n. \<exists>ok. nominatim demo_env n (originAddr (demo_app\<lparr>originAddr := ''C''\<rparr>)) =
      Response ok (Inr (Some []))"
    by (auto simp: demo_env_def demo_app_def)
  ultimately have "run_log demo_env (demo_app\<lparr>originAddr := ''C''\<rparr>) =
      [(Geocode (originAddr (demo_app\<lparr>originAddr := ''C''\<rparr>)), True),
       (Geocode (destAddr (demo_app\<lparr>originAddr := ''C''\<rparr>)), True)]"
    by (rule origin_not_found_destination_queried [THEN conjunct1])
  then show ?thesis
    by (simp add: demo_app_def)
qed


text \<open>
  What every run waits for: lookups of endpoints that are not pinned, origin first, and
  after them no further lookup; every entry is recorded with the flag set; and a route
  request carries the endpoints the lookups or the pins gave.
\<close>

lemma run_log_structure:
  fixes e :: env and s :: app
  defines "pre3 \<equiv> (case origin s of None \<Rightarrow> [(Geocode (originAddr s), True)] | Some p \<Rightarrow> [])"
  defines "pre4 \<equiv> (case dest s of None \<Rightarrow> [(Geocode (destAddr s), True)] | Some p \<Rightarrow> [])"
  shows "\<exists>pre post.
     awaited (handleCheckRoute e s) = awaited s @ run_log e s \<and>
     run_log e s = pre @ post \<and> prefix pre (pre3 @ pre4) \<and>
     (\<forall>x\<in>set (pre @ post). snd x = True) \<and>
     (\<forall>x\<in>set post. \<forall>a. fst x \<noteq> Geocode a) \<and>
     (\<forall>p q b. (Route p q, b) \<in> set (pre @ post) \<longrightarrow>
        pre = pre3 @ pre4 \<and> (\<forall>f. origin s = Some f \<longrightarrow> p = f) \<and> (\<forall>t. dest s = Some t \<longrightarrow> q = t))"
proof -
  have geo: "\<forall>x\<in>set (pre3 @ pre4). (\<exists>a. fst x = Geocode a) \<and> snd x = True"
    unfolding pre3_def pre4_def by (rule unpinned_lookups_geocode)
  have fin: ?thesis
    if "awaited (snd (handleCheckRoute_try e s)) = awaited s @ pre @ post"
      and "prefix pre (pre3 @ pre4)"
      and "\<forall>x\<in>set (pre @ post). snd x = True"
      and "\<forall>x\<in>set post. \<forall>a. fst x \<noteq> Geocode a"
      and "\<forall>p q b. (Route p q, b) \<in> set (pre @ post) \<longrightarrow>
        pre = pre3 @ pre4 \<and> (\<forall>f. origin s = Some f \<longrightarrow> p = f) \<and> (\<forall>t. dest s = Some t \<longrightarrow> q = t)"
    for pre post
  proof -
    from that(1) have "run_log e s = pre @ post"
      by (rule run_log_eq)
    with that show ?thesis
      by (intro exI [of _ pre] exI [of _ post]) (simp add: handleCheckRoute_awaited)
  qed
  have no_route: "(Route p q, b) \<notin> set pre" if "prefix pre (pre3 @ pre4)" for pre p q b
  proof
    assume "(Route p q, b) \<in> set pre"
    with that have "(Route p q, b) \<in> set (pre3 @ pre4)"
      using set_mono_prefix by blast
    with geo show False
      by fastforce
  qed
  show ?thesis
  proof (rule handleCheckRoute_try_cases [of e s], goal_cases)
    case (1 x)
    have pre: "prefix pre3 (pre3 @ pre4)"
      by simp
    from 1(3) [folded pre3_def] have "awaited (snd (handleCheckRoute_try e s)) = awaited s @ pre3 @ []"
      by simp
    then show ?case
      using geo no_route [OF pre] by (intro fin [of pre3 "[]"]) auto
  next
    case (2 p x)
    have pre: "prefix (pre3 @ pre4) (pre3 @ pre4)"
      by simp
    from 2(4) [folded pre3_def pre4_def] show ?case
      using geo no_route [OF pre] by (intro fin [of "pre3 @ pre4" "[]"]) auto
  next
    case (3 p q)
    have pre: "prefix (pre3 @ pre4) (pre3 @ pre4)"
      by simp
    from 3(5) [folded pre3_def pre4_def] show ?case
      using geo no_route [OF pre] by (intro fin [of "pre3 @ pre4" "[]"]) auto
  next
    case (4 f t rest)
    have pre: "prefix (pre3 @ pre4) (pre3 @ pre4)"
      by simp
    have f: "f' = f" if "origin s = Some f'" for f'
      using 4(1) that by (simp add: resolve_def)
    have t: "t' = t" if "dest s = Some t'" for t'
      using 4(2) that by (simp add: resolve_def)
    have rest: "\<forall>x\<in>set rest. \<forall>a. fst x \<noteq> Geocode a"
      using 4(4) by (fastforce simp: sample_request_def)
    have routes: "p = f \<and> q = t" if "(Route p q, b) \<in> set ((pre3 @ pre4) @ (Route f t, True) # rest)"
      for p q b
    proof -
      from that no_route [OF pre] have "(Route p q, b) = (Route f t, True) \<or> (Route p q, b) \<in> set rest"
        by auto
      with 4(4) show ?thesis
        by (auto simp: sample_request_def)
    qed
    from 4(3) [folded pre3_def pre4_def] have "awaited (snd (handleCheckRoute_try e s)) =
        awaited s @ (pre3 @ pre4) @ (Route f t, True) # rest"
      by simp
    then show ?case
    proof (rule fin)
      show "prefix (pre3 @ pre4) (pre3 @ pre4)"
        by simp
      show "\<forall>x\<in>set ((pre3 @ pre4) @ (Route f t, True) # rest). snd x = True"
        using geo 4(4) by auto
      show "\<forall>x\<in>set ((Route f t, True) # rest). \<forall>a. fst x \<noteq> Geocode a"
        using rest by simp
      show "\<forall>p q b. (Route p q, b) \<in> set ((pre3 @ pre4) @ (Route f t, True) # rest) \<longrightarrow>
          pre3 @ pre4 = pre3 @ pre4 \<and>
          (\<forall>f. origin s = Some f \<longrightarrow> p = f) \<and> (\<forall>t. dest s = Some t \<longrightarrow> q = t)"
        using routes f t by blast
    qed
  qed
qed


text \<open>
  C8. Resolving a pinned endpoint returns its coordinate and leaves the state as it was, so
  nothing is awaited, whatever the address text and the services; doing it again gives the
  same. In a run, the lookups are an initial part of the list of the endpoints that are not
  pinned (origin first) and nothing after them is a lookup, so with both endpoints pinned
  there is none; and a route request carries the pinned coordinates unchanged.
\<close>

theorem pinned_endpoint_not_geocoded:
  "resolve e (Some c) addr s' = (Inr (Some c), s')
   \<and> resolve e (Some c) addr' (snd (resolve e (Some c) addr s')) = (Inr (Some c), s')
   \<and> (\<exists>pre post.
         run_log e s = pre @ post \<and>
         prefix pre
           ((case origin s of None \<Rightarrow> [(Geocode (originAddr s), True)] | Some p \<Rightarrow> []) @
            (case dest s of None \<Rightarrow> [(Geocode (destAddr s), True)] | Some p \<Rightarrow> [])) \<and>
         (\<forall>x\<in>set post. \<forall>a. fst x \<noteq> Geocode a))
   \<and> (origin s \<noteq> None \<and> dest s \<noteq> None \<longrightarrow> (\<forall>x\<in>set (run_log e s). \<forall>a. fst x \<noteq> Geocode a))
   \<and> (\<forall>p q b. (Route p q, b) \<in> set (run_log e s) \<longrightarrow>
         (\<forall>f. origin s = Some f \<longrightarrow> p = f) \<and> (\<forall>t. dest s = Some t \<longrightarrow> q = t))"
proof -
  define lookups where "lookups =
       (case origin s of None \<Rightarrow> [(Geocode (originAddr s), True)] | Some p \<Rightarrow> []) @
       (case dest s of None \<Rightarrow> [(Geocode (destAddr s), True)] | Some p \<Rightarrow> [])"
  from run_log_structure [of e s, folded lookups_def] obtain pre post where
    "awaited (handleCheckRoute e s) = awaited s @ run_log e s \<and>
     run_log e s = pre @ post \<and> prefix pre lookups \<and>
     (\<forall>x\<in>set (pre @ post). snd x = True) \<and>
     (\<forall>x\<in>set post. \<forall>a. fst x \<noteq> Geocode a) \<and>
     (\<forall>p q b. (Route p q, b) \<in> set (pre @ post) \<longrightarrow>
        pre = lookups \<and> (\<forall>f. origin s = Some f \<longrightarrow> p = f) \<and> (\<forall>t. dest s = Some t \<longrightarrow> q = t))"
    by (elim exE)
  then have log: "run_log e s = pre @ post"
    and pre: "prefix pre
       ((case origin s of None \<Rightarrow> [(Geocode (originAddr s), True)] | Some p \<Rightarrow> []) @
        (case dest s of None \<Rightarrow> [(Geocode (destAddr s), True)] | Some p \<Rightarrow> []))"
    and post: "\<forall>x\<in>set post. \<forall>a. fst x \<noteq> Geocode a"
    and routes: "\<forall>p q b. (Route p q, b) \<in> set (pre @ post) \<longrightarrow>
       (\<forall>f. origin s = Some f \<longrightarrow> p = f) \<and> (\<forall>t. dest s = Some t \<longrightarrow> q = t)"
    unfolding lookups_def by blast+
  have both: "\<forall>x\<in>set (run_log e s). \<forall>a. fst x \<noteq> Geocode a"
    if "origin s \<noteq> None" and "dest s \<noteq> None"
  proof -
    from that pre have "pre = []"
      by auto
    with log post show ?thesis
      by simp
  qed
  from log pre post have "\<exists>pre post.
         run_log e s = pre @ post \<and>
         prefix pre
           ((case origin s of None \<Rightarrow> [(Geocode (originAddr s), True)] | Some p \<Rightarrow> []) @
            (case dest s of None \<Rightarrow> [(Geocode (destAddr s), True)] | Some p \<Rightarrow> [])) \<and>
         (\<forall>x\<in>set post. \<forall>a. fst x \<noteq> Geocode a)"
    by blast
  moreover from routes log have "\<forall>p q b. (Route p q, b) \<in> set (run_log e s) \<longrightarrow>
         (\<forall>f. origin s = Some f \<longrightarrow> p = f) \<and> (\<forall>t. dest s = Some t \<longrightarrow> q = t)"
    by simp
  ultimately show ?thesis
    using both by (simp add: resolve_pinned)
qed

theorem pinned_endpoint_not_geocoded_witness:
  "resolve demo_env (Some \<lparr>lat = 1, lon = 2\<rparr>) ''A'' demo_app =
     (Inr (Some \<lparr>lat = 1, lon = 2\<rparr>), demo_app)
   \<and> \<not> (\<exists>a b. (Geocode a, b) \<in> set (run_log demo_env
          (demo_app\<lparr>origin := Some \<lparr>lat = 1, lon = 2\<rparr>, dest := Some \<lparr>lat = 3, lon = 4\<rparr>\<rparr>)))"
proof
  show "resolve demo_env (Some \<lparr>lat = 1, lon = 2\<rparr>) ''A'' demo_app =
      (Inr (Some \<lparr>lat = 1, lon = 2\<rparr>), demo_app)"
    by (rule pinned_endpoint_not_geocoded [THEN conjunct1])
  let ?s = "demo_app\<lparr>origin := Some \<lparr>lat = 1, lon = 2\<rparr>, dest := Some \<lparr>lat = 3, lon = 4\<rparr>\<rparr>"
  have "origin ?s \<noteq> None \<and> dest ?s \<noteq> None"
    by simp
  then have "\<forall>x\<in>set (run_log demo_env ?s). \<forall>a. fst x \<noteq> Geocode a"
    by (rule pinned_endpoint_not_geocoded [where s = ?s and e = demo_env, THEN conjunct2,
          THEN conjunct2, THEN conjunct2, THEN conjunct1, THEN mp])
  then show "\<not> (\<exists>a b. (Geocode a, b) \<in> set (run_log demo_env ?s))"
    by force
qed

text \<open>
  C9. However a run ends, \<open>checking\<close> is false after it, the button is enabled and a click
  starts the next run. Everything the run waits for is recorded with \<open>checking\<close> true, and
  in a state where \<open>checking\<close> is true the button is disabled and a click changes nothing.
\<close>

theorem in_flight_flag_reset:
  "checking (handleCheckRoute e s) = False
   \<and> \<not> button_disabled (handleCheckRoute e s)
   \<and> click e' (handleCheckRoute e s) = handleCheckRoute e' (handleCheckRoute e s)
   \<and> awaited (handleCheckRoute e s) = awaited s @ run_log e s
   \<and> (\<forall>x\<in>set (run_log e s). snd x = True)
   \<and> (\<forall>s'. checking s' \<longrightarrow> button_disabled s' \<and> click e s' = s')"
proof -
  from run_log_structure [of e s] have "awaited (handleCheckRoute e s) = awaited s @ run_log e s"
    and "\<forall>x\<in>set (run_log e s). snd x = True"
    by auto
  then show ?thesis
    by (simp add: handleCheckRoute_checking button_disabled_def click_def)
qed

theorem in_flight_flag_reset_witness:
  "checking (handleCheckRoute demo_env demo_app) = False
   \<and> click demo_env (demo_app\<lparr>checking := True\<rparr>) = demo_app\<lparr>checking := True\<rparr>"
  using in_flight_flag_reset [of demo_env demo_app]
    in_flight_flag_reset [of demo_env demo_app, THEN conjunct2, THEN conjunct2, THEN conjunct2,
      THEN conjunct2, THEN conjunct2, rule_format, of "demo_app\<lparr>checking := True\<rparr>"]
  by simp

end
